theory Spec2Isabelle
  imports Complex_Main "HOL-Library.Multiset" "HOL-Library.Sublist"
begin

section \<open>JavaScript values used by the dashboard\<close>

text \<open>
  A JavaScript number is an IEEE double: NaN, the two infinities, or a finite value.
  Every finite double is a rational, so the finite case carries a \<^typ>\<open>rat\<close>.
  Comparisons are exact; the arithmetic on finite values is exact rational arithmetic
  (the rounding of a double operation and the sign of zero are not modelled).
\<close>

datatype jsnum = NaN | PosInf | NegInf | Fin rat

text \<open>\<^verbatim>\<open>a < b\<close>: false as soon as one side is NaN.\<close>

fun js_lt :: "jsnum \<Rightarrow> jsnum \<Rightarrow> bool" where
  "js_lt NaN _ = False"
| "js_lt _ NaN = False"
| "js_lt (Fin a) (Fin b) = (a < b)"
| "js_lt NegInf NegInf = False"
| "js_lt NegInf _ = True"
| "js_lt _ NegInf = False"
| "js_lt PosInf _ = False"
| "js_lt _ PosInf = True"

text \<open>\<^verbatim>\<open>a <= b\<close>, \<^verbatim>\<open>a > b\<close>, \<^verbatim>\<open>a >= b\<close>.\<close>

fun js_le :: "jsnum \<Rightarrow> jsnum \<Rightarrow> bool" where
  "js_le NaN _ = False"
| "js_le _ NaN = False"
| "js_le a b = (a = b \<or> js_lt a b)"

definition js_gt :: "jsnum \<Rightarrow> jsnum \<Rightarrow> bool" where
  "js_gt a b = js_lt b a"

definition js_ge :: "jsnum \<Rightarrow> jsnum \<Rightarrow> bool" where
  "js_ge a b = js_le b a"

fun Number_isFinite :: "jsnum \<Rightarrow> bool" where
  "Number_isFinite (Fin _) = True"
| "Number_isFinite _ = False"

fun Number_isNaN :: "jsnum \<Rightarrow> bool" where
  "Number_isNaN NaN = True"
| "Number_isNaN _ = False"

text \<open>\<^verbatim>\<open>a - b\<close>: the difference of equal infinities is NaN.\<close>

fun js_sub :: "jsnum \<Rightarrow> jsnum \<Rightarrow> jsnum" where
  "js_sub NaN _ = NaN"
| "js_sub _ NaN = NaN"
| "js_sub (Fin a) (Fin b) = Fin (a - b)"
| "js_sub PosInf PosInf = NaN"
| "js_sub NegInf NegInf = NaN"
| "js_sub PosInf _ = PosInf"
| "js_sub NegInf _ = NegInf"
| "js_sub _ PosInf = NegInf"
| "js_sub _ NegInf = PosInf"

text \<open>The sign of a number that is not NaN, for the products and quotients below.\<close>

fun js_sign :: "jsnum \<Rightarrow> int" where
  "js_sign NaN = 0"
| "js_sign PosInf = 1"
| "js_sign NegInf = - 1"
| "js_sign (Fin a) = sgn \<lfloor>sgn a\<rfloor>"

definition signed_inf :: "int \<Rightarrow> jsnum" where
  "signed_inf s = (if s = 0 then NaN else if 0 < s then PosInf else NegInf)"

text \<open>\<^verbatim>\<open>a * b\<close>: zero times infinity is NaN.\<close>

fun js_mul :: "jsnum \<Rightarrow> jsnum \<Rightarrow> jsnum" where
  "js_mul NaN _ = NaN"
| "js_mul _ NaN = NaN"
| "js_mul (Fin a) (Fin b) = Fin (a * b)"
| "js_mul a b = signed_inf (js_sign a * js_sign b)"

text \<open>
  \<^verbatim>\<open>a / b\<close>: a finite value over zero is an infinity of its sign (zero over zero is NaN),
  a finite value over an infinity is zero, an infinity over an infinity is NaN.
\<close>

fun js_div :: "jsnum \<Rightarrow> jsnum \<Rightarrow> jsnum" where
  "js_div NaN _ = NaN"
| "js_div _ NaN = NaN"
| "js_div (Fin a) (Fin b) = (if b = 0 then signed_inf (js_sign (Fin a)) else Fin (a / b))"
| "js_div (Fin a) _ = Fin 0"
| "js_div a (Fin b) = signed_inf (js_sign a * (if b < 0 then - 1 else 1))"
| "js_div _ _ = NaN"

text \<open>
  \<^verbatim>\<open>a % b\<close>: the remainder of the division truncated towards zero; NaN when the
  dividend is infinite or the divisor is zero, the dividend itself when only the divisor
  is infinite.
\<close>

definition trunc :: "rat \<Rightarrow> int" where
  "trunc q = (if 0 \<le> q then \<lfloor>q\<rfloor> else \<lceil>q\<rceil>)"

fun js_mod :: "jsnum \<Rightarrow> jsnum \<Rightarrow> jsnum" where
  "js_mod NaN _ = NaN"
| "js_mod _ NaN = NaN"
| "js_mod (Fin a) (Fin b) = (if b = 0 then NaN else Fin (a - b * of_int (trunc (a / b))))"
| "js_mod (Fin a) _ = Fin a"
| "js_mod _ _ = NaN"

text \<open>\<^verbatim>\<open>Math.floor\<close>, and \<^verbatim>\<open>Math.round\<close>, which rounds a half towards plus infinity.\<close>

fun Math_floor :: "jsnum \<Rightarrow> jsnum" where
  "Math_floor (Fin a) = Fin (of_int \<lfloor>a\<rfloor>)"
| "Math_floor a = a"

fun Math_round :: "jsnum \<Rightarrow> jsnum" where
  "Math_round (Fin a) = Fin (of_int \<lfloor>a + 1 / 2\<rfloor>)"
| "Math_round a = a"



text \<open>
  A value of type \<^verbatim>\<open>number | null | undefined\<close>, as the formatting helpers receive it.
\<close>

datatype jsval = Undefined | Null | Num jsnum

subsection \<open>Numbers in template literals\<close>

definition digit_char :: "nat \<Rightarrow> char" where
  "digit_char d = ''0123456789'' ! (d mod 10)"

fun nat_str :: "nat \<Rightarrow> string" where
  "nat_str n = (if n < 10 then [digit_char n] else nat_str (n div 10) @ [digit_char (n mod 10)])"

declare nat_str.simps [simp del]

definition int_str :: "int \<Rightarrow> string" where
  "int_str k = (if k < 0 then CHR ''-'' # nat_str (nat (- k)) else nat_str (nat k))"

text \<open>
  \<^verbatim>\<open>`${x}`\<close> for a number. The modelled functions interpolate whole numbers only
  (results of \<^verbatim>\<open>Math.round\<close> and \<^verbatim>\<open>Math.floor\<close>, an HTTP status), which JavaScript
  prints in plain decimal while their magnitude is below \<open>10\<^sup>2\<^sup>1\<close>; the finite case
  prints the whole part in decimal.
\<close>

fun Number_toString :: "jsnum \<Rightarrow> string" where
  "Number_toString NaN = ''NaN''"
| "Number_toString PosInf = ''Infinity''"
| "Number_toString NegInf = ''-Infinity''"
| "Number_toString (Fin a) = int_str \<lfloor>a\<rfloor>"

subsection \<open>Arrays\<close>

text \<open>
  \<^verbatim>\<open>data[idx]\<close>: the element when \<open>idx\<close> is a whole number inside the array, and
  \<^verbatim>\<open>undefined\<close> (\<open>None\<close>) for every other index; reading never throws.
\<close>

fun js_index :: "'a list \<Rightarrow> jsnum \<Rightarrow> 'a option" where
  "js_index xs (Fin q) =
     (if 0 \<le> q \<and> of_int \<lfloor>q\<rfloor> = q \<and> nat \<lfloor>q\<rfloor> < length xs then Some (xs ! nat \<lfloor>q\<rfloor>) else None)"
| "js_index xs _ = None"

text \<open>
  \<^verbatim>\<open>xs.sort(cmp)\<close>. The comparator returns a number: positive puts its first argument
  after its second, anything else (negative, zero, NaN) keeps the first in front. The
  sort is stable. For a consistent comparator every conforming engine returns the list
  below; for an inconsistent one the order is implementation-defined and the model
  fixes stable insertion.
\<close>

fun js_insert :: "('a \<Rightarrow> 'a \<Rightarrow> jsnum) \<Rightarrow> 'a \<Rightarrow> 'a list \<Rightarrow> 'a list" where
  "js_insert cmp x [] = [x]"
| "js_insert cmp x (y # ys) =
     (if js_gt (cmp x y) (Fin 0) then y # js_insert cmp x ys else x # y # ys)"

fun js_sort :: "('a \<Rightarrow> 'a \<Rightarrow> jsnum) \<Rightarrow> 'a list \<Rightarrow> 'a list" where
  "js_sort cmp [] = []"
| "js_sort cmp (x # xs) = js_insert cmp x (js_sort cmp xs)"

section \<open>Equity chart: downsampling\<close>

definition MAX_CHART_POINTS :: nat where
  "MAX_CHART_POINTS = 8000"

text \<open>
  The body of the \<^verbatim>\<open>for\<close> loop of \<^verbatim>\<open>downsample\<close>: the index read at step \<open>i\<close> is the
  last index at the last step and \<^verbatim>\<open>Math.round(i * step)\<close> before. \<open>n\<close> is
  \<^verbatim>\<open>data.length\<close>; \<^verbatim>\<open>maxPoints - 1\<close> is a subtraction of numbers, so it is \<open>-1\<close> for
  \<open>maxPoints = 0\<close>.
\<close>

definition sample_step :: "nat \<Rightarrow> nat \<Rightarrow> jsnum" where
  "sample_step n maxPoints = js_div (Fin (of_nat n - 1)) (Fin (of_nat maxPoints - 1))"

definition sample_idx :: "nat \<Rightarrow> nat \<Rightarrow> jsnum \<Rightarrow> nat \<Rightarrow> jsnum" where
  "sample_idx n maxPoints step i =
     (if int i = int maxPoints - 1 then Fin (of_nat n - 1)
      else Math_round (js_mul (Fin (of_nat i)) step))"

function downsample_loop ::
  "'a list \<Rightarrow> nat \<Rightarrow> jsnum \<Rightarrow> nat \<Rightarrow> 'a option list \<Rightarrow> 'a option list" where
  "downsample_loop data maxPoints step i out =
     (if i < maxPoints
      then downsample_loop data maxPoints step (Suc i)
             (out @ [js_index data (sample_idx (length data) maxPoints step i)])
      else out)"
  by pat_completeness auto
termination
  by (relation "measure (\<lambda>(data, maxPoints, step, i, out). maxPoints - i)") auto

declare downsample_loop.simps [simp del]

text \<open>
  \<^verbatim>\<open>downsample(data, maxPoints)\<close>. The result is an array of \<^verbatim>\<open>T | undefined\<close>: the
  input itself when it is short enough, the sampled elements otherwise.
\<close>

definition downsample :: "'a list \<Rightarrow> nat \<Rightarrow> 'a option list" where
  "downsample data maxPoints =
     (if length data \<le> maxPoints then map Some data
      else downsample_loop data maxPoints (sample_step (length data) maxPoints) 0 [])"

section \<open>Equity chart: the update effect\<close>

text \<open>
  The fields of the snapshot types that the modelled functions read. A missing
  \<^verbatim>\<open>equity_history\<close> or \<^verbatim>\<open>trade_events\<close> is \<open>None\<close>; the code reads it as the empty
  array (\<^verbatim>\<open>|| []\<close>).
\<close>

record equity_pt =
  ts :: jsnum
  equity :: jsnum

record chart_pt =
  time :: jsnum
  val :: jsnum

record TradeEvent =
  ev_type :: string
  ev_time :: "string option"
  ev_result :: "string option"
  reject_reason :: "string option"

record AccountData =
  label :: string
  equity_history :: "equity_pt list option"
  trade_events :: "TradeEvent list option"

record ModeConfig =
  color :: string
  cls :: string

text \<open>\<^verbatim>\<open>MODE_CONFIG\<close> in the order \<^verbatim>\<open>Object.entries\<close> lists it (the emoji is left out).\<close>

definition MODE_CONFIG :: "(string \<times> ModeConfig) list" where
  "MODE_CONFIG =
     [(''binance_only'', \<lparr>color = ''#FFD700'', cls = ''mode-binance''\<rparr>),
      (''chainlink_only'', \<lparr>color = ''#42A5F5'', cls = ''mode-chainlink''\<rparr>),
      (''dual'', \<lparr>color = ''#00E676'', cls = ''mode-dual''\<rparr>)]"

text \<open>
  The chart library is external: the model records the calls made on it. The refs of
  the component are the state: whether \<^verbatim>\<open>chartRef.current\<close> holds a chart, the modes that
  have a series in \<^verbatim>\<open>seriesRefs.current\<close>, and the flag \<^verbatim>\<open>initialRangeSet.current\<close>.
\<close>

datatype chart_call =
    CreateChart
  | AddSeries string string
  | SetData string "chart_pt option list"
  | SetVisibleRange jsnum jsnum
  | FitContent

record chart_refs =
  chartRef :: bool
  seriesRefs :: "string set"
  initialRangeSet :: bool
  calls :: "chart_call list"

definition initial_refs :: chart_refs where
  "initial_refs = \<lparr>chartRef = False, seriesRefs = {}, initialRangeSet = False, calls = []\<rparr>"

text \<open>
  The first effect, run once on mount: nothing without a container; otherwise a chart
  is created, the flag is cleared, and one series is added for each mode of
  \<^verbatim>\<open>MODE_CONFIG\<close> that has an account at that moment.
\<close>

fun add_series_loop ::
  "(string \<rightharpoonup> AccountData) \<Rightarrow> (string \<times> ModeConfig) list \<Rightarrow> string set \<times> chart_call list
     \<Rightarrow> string set \<times> chart_call list" where
  "add_series_loop accounts [] (newSeries, cs) = (newSeries, cs)"
| "add_series_loop accounts ((mode, cfg) # rest) (newSeries, cs) =
     (case accounts mode of
        None \<Rightarrow> add_series_loop accounts rest (newSeries, cs)
      | Some acct \<Rightarrow>
          add_series_loop accounts rest (insert mode newSeries, cs @ [AddSeries mode (label acct)]))"

definition mount_effect :: "bool \<Rightarrow> (string \<rightharpoonup> AccountData) \<Rightarrow> chart_refs \<Rightarrow> chart_refs" where
  "mount_effect container accounts st =
     (if \<not> container then st
      else (case add_series_loop accounts MODE_CONFIG ({}, calls st @ [CreateChart]) of
              (newSeries, cs) \<Rightarrow>
                st\<lparr>chartRef := True, initialRangeSet := False, seriesRefs := newSeries, calls := cs\<rparr>))"

definition to_point :: "equity_pt \<Rightarrow> chart_pt" where
  "to_point pt = \<lparr>time = ts pt, val = equity pt\<rparr>"

text \<open>The comparator \<^verbatim>\<open>(a, b) => a.time - b.time\<close>.\<close>

definition by_time :: "chart_pt \<Rightarrow> chart_pt \<Rightarrow> jsnum" where
  "by_time a b = js_sub (time a) (time b)"

definition history_of :: "AccountData \<Rightarrow> equity_pt list" where
  "history_of acct = (case equity_history acct of None \<Rightarrow> [] | Some h \<Rightarrow> h)"

text \<open>
  The data handed to \<^verbatim>\<open>series.setData\<close> by the current component: mapped, sorted,
  downsampled.
\<close>

definition series_data :: "equity_pt list \<Rightarrow> chart_pt option list" where
  "series_data history = downsample (js_sort by_time (map to_point history)) MAX_CHART_POINTS"

text \<open>
  The loop of the second effect over the modes, carrying \<^verbatim>\<open>hasData\<close> and the calls made.
  A mode without an account or without a series is skipped, and so is an empty history.
\<close>

fun update_loop ::
  "(string \<rightharpoonup> AccountData) \<Rightarrow> string set \<Rightarrow> (string \<times> ModeConfig) list \<Rightarrow> bool \<times> chart_call list
     \<Rightarrow> bool \<times> chart_call list" where
  "update_loop accounts series [] (hasData, cs) = (hasData, cs)"
| "update_loop accounts series ((mode, cfg) # rest) (hasData, cs) =
     (case accounts mode of
        None \<Rightarrow> update_loop accounts series rest (hasData, cs)
      | Some acct \<Rightarrow>
          if mode \<notin> series then update_loop accounts series rest (hasData, cs)
          else if length (history_of acct) = 0 then update_loop accounts series rest (hasData, cs)
          else update_loop accounts series rest
                 (True, cs @ [SetData mode (series_data (history_of acct))]))"

text \<open>
  The second effect, run after every render with new \<^verbatim>\<open>accounts\<close>. The call of
  \<^verbatim>\<open>fitContent\<close> sits in a \<^verbatim>\<open>try\<close> whose \<^verbatim>\<open>catch\<close> is empty.
\<close>

definition update_effect :: "(string \<rightharpoonup> AccountData) \<Rightarrow> chart_refs \<Rightarrow> chart_refs" where
  "update_effect accounts st =
     (if \<not> chartRef st then st
      else (case update_loop accounts (seriesRefs st) MODE_CONFIG (False, []) of
              (hasData, cs) \<Rightarrow>
                if hasData \<and> \<not> initialRangeSet st \<and> chartRef st
                then st\<lparr>initialRangeSet := True, calls := calls st @ cs @ [FitContent]\<rparr>
                else st\<lparr>calls := calls st @ cs\<rparr>))"

text \<open>
  The earlier revision of the component, kept in the repository: no downsampling, and
  the first data load sets the visible range to the last three hours, falling back to
  \<^verbatim>\<open>fitContent\<close> when \<^verbatim>\<open>setVisibleRange\<close> throws. \<open>now\<close> is \<^verbatim>\<open>Date.now()\<close> and \<open>throws\<close> says
  whether the library call throws.
\<close>

fun update_loop_v1 ::
  "(string \<rightharpoonup> AccountData) \<Rightarrow> string set \<Rightarrow> (string \<times> ModeConfig) list \<Rightarrow> bool \<times> chart_call list
     \<Rightarrow> bool \<times> chart_call list" where
  "update_loop_v1 accounts series [] (hasData, cs) = (hasData, cs)"
| "update_loop_v1 accounts series ((mode, cfg) # rest) (hasData, cs) =
     (case accounts mode of
        None \<Rightarrow> update_loop_v1 accounts series rest (hasData, cs)
      | Some acct \<Rightarrow>
          if mode \<notin> series then update_loop_v1 accounts series rest (hasData, cs)
          else if length (history_of acct) = 0 then update_loop_v1 accounts series rest (hasData, cs)
          else update_loop_v1 accounts series rest
                 (True, cs @ [SetData mode (map Some (js_sort by_time (map to_point (history_of acct))))]))"

definition update_effect_v1 ::
  "jsnum \<Rightarrow> bool \<Rightarrow> (string \<rightharpoonup> AccountData) \<Rightarrow> chart_refs \<Rightarrow> chart_refs" where
  "update_effect_v1 now throws accounts st =
     (if \<not> chartRef st then st
      else (case update_loop_v1 accounts (seriesRefs st) MODE_CONFIG (False, []) of
              (hasData, cs) \<Rightarrow>
                if hasData \<and> \<not> initialRangeSet st \<and> chartRef st
                then (let threeHoursAgo = js_sub (Math_floor (js_div now (Fin 1000))) (Fin (3 * 3600));
                          now' = Math_floor (js_div now (Fin 1000))
                      in st\<lparr>initialRangeSet := True,
                            calls := calls st @ cs @ [SetVisibleRange threeHoursAgo now']
                                       @ (if throws then [FitContent] else [])\<rparr>)
                else st\<lparr>calls := calls st @ cs\<rparr>))"

text \<open>A run of the update effect over the snapshots of successive polls.\<close>

definition run_updates :: "chart_refs \<Rightarrow> (string \<rightharpoonup> AccountData) list \<Rightarrow> chart_refs" where
  "run_updates st snaps = foldl (\<lambda>s accounts. update_effect accounts s) st snaps"

fun is_range_call :: "chart_call \<Rightarrow> bool" where
  "is_range_call (SetVisibleRange _ _) = True"
| "is_range_call FitContent = True"
| "is_range_call _ = False"

definition range_calls :: "chart_refs \<Rightarrow> nat" where
  "range_calls st = length (filter is_range_call (calls st))"

text \<open>
  What \<^verbatim>\<open>hasData\<close> is after the loop: some mode of \<^verbatim>\<open>MODE_CONFIG\<close> has a series and an
  account with a history that is not empty.
\<close>

definition has_data :: "string set \<Rightarrow> (string \<rightharpoonup> AccountData) \<Rightarrow> bool" where
  "has_data series accounts =
     (\<exists>mode \<in> set (map fst MODE_CONFIG). mode \<in> series \<and>
        (case accounts mode of None \<Rightarrow> False | Some acct \<Rightarrow> history_of acct \<noteq> []))"

section \<open>State poller\<close>

text \<open>
  What one call of \<^verbatim>\<open>fetchState\<close> can meet. A thrown value is an \<^verbatim>\<open>Error\<close> with its
  message or something else. \<^verbatim>\<open>fetch\<close> rejects, or resolves to a response with its
  \<^verbatim>\<open>ok\<close> flag, its status and the outcome of \<^verbatim>\<open>res.json()\<close>: the parsed payload (which
  may be \<^verbatim>\<open>null\<close>, \<open>None\<close>) or a thrown value.
\<close>

datatype thrown = Error string | NotAnError

datatype 'a json_result = Parsed "'a option" | JsonThrows thrown

datatype 'a fetch_result = Rejected thrown | Response bool nat "'a json_result"

record 'a poller =
  state :: "'a option"
  error :: "string option"
  lastFetch :: int

definition initial_poller :: "'a poller" where
  "initial_poller = \<lparr>state = None, error = None, lastFetch = 0\<rparr>"

text \<open>\<^verbatim>\<open>e instanceof Error ? e.message : "Connection failed"\<close>\<close>

fun catch_message :: "thrown \<Rightarrow> string" where
  "catch_message (Error msg) = msg"
| "catch_message NotAnError = ''Connection failed''"

text \<open>
  One poll: \<open>now\<close> is \<^verbatim>\<open>Date.now()\<close>. Everything thrown inside the \<^verbatim>\<open>try\<close>, the
  \<^verbatim>\<open>HTTP\<close> error included, ends in the \<^verbatim>\<open>catch\<close>, which only sets the error.
\<close>

definition fetchState :: "int \<Rightarrow> 'a fetch_result \<Rightarrow> 'a poller \<Rightarrow> 'a poller" where
  "fetchState now outcome h =
     (case outcome of
        Rejected e \<Rightarrow> h\<lparr>error := Some (catch_message e)\<rparr>
      | Response ok status body \<Rightarrow>
          if \<not> ok
          then h\<lparr>error := Some (catch_message (Error (''HTTP '' @ Number_toString (Fin (of_nat status)))))\<rparr>
          else (case body of
                  JsonThrows e \<Rightarrow> h\<lparr>error := Some (catch_message e)\<rparr>
                | Parsed data \<Rightarrow> h\<lparr>state := data, error := None, lastFetch := now\<rparr>))"

section \<open>Health status of the order-book socket\<close>

record MarketInfo =
  seconds_elapsed :: jsnum

record BotState =
  current_market :: "MarketInfo option"
  clob_ws_connected :: bool
  clob_ws_seconds_since_update :: "jsnum option"

definition SUSPICIOUS_SECS :: jsnum where
  "SUSPICIOUS_SECS = Fin 999"

definition MAX_REASONABLE_SECS :: jsnum where
  "MAX_REASONABLE_SECS = Fin 600"

text \<open>
  \<^verbatim>\<open>formatSecsAgo\<close>. The first test, \<^verbatim>\<open>typeof secs !== "number"\<close>, holds for null and
  undefined and for no number; the other three are tests on the number.
\<close>

definition formatSecsAgo :: "jsval \<Rightarrow> string" where
  "formatSecsAgo secs =
     (case secs of
        Num x \<Rightarrow>
          if \<not> Number_isFinite x \<or> js_ge x MAX_REASONABLE_SECS \<or> js_ge x SUSPICIOUS_SECS
          then ''No recent update''
          else Number_toString (Math_round x) @ ''s ago''
      | _ \<Rightarrow> ''No recent update'')"

record ws_status =
  ok :: bool
  warning :: bool
  status :: string
  detail :: string

text \<open>\<^verbatim>\<open>state.clob_ws_seconds_since_update ?? 0\<close>: null and undefined are read as 0.\<close>

definition getClobWsStatus :: "BotState \<Rightarrow> ws_status" where
  "getClobWsStatus st =
     (let hasMarket = (current_market st \<noteq> None);
          connected = clob_ws_connected st;
          secsSince = (case clob_ws_seconds_since_update st of None \<Rightarrow> Fin 0 | Some x \<Rightarrow> x)
      in if \<not> connected
         then \<lparr>ok = False, warning = False, status = ''Disconnected'', detail = ''Not connected''\<rparr>
         else if \<not> hasMarket
         then \<lparr>ok = True, warning = True, status = ''Idle'', detail = ''No active market''\<rparr>
         else (let detail = formatSecsAgo (Num secsSince)
               in if js_gt secsSince (Fin 60) \<or> js_ge secsSince SUSPICIOUS_SECS
                       \<or> \<not> Number_isFinite secsSince
                  then \<lparr>ok = False, warning = False, status = ''Stale'', detail = detail\<rparr>
                  else \<lparr>ok = True, warning = False, status = ''Connected'', detail = detail\<rparr>))"

text \<open>
  The stale condition read on the field itself, as JavaScript evaluates it there:
  \<^verbatim>\<open>null > 60\<close> and \<^verbatim>\<open>null >= 999\<close> are false, and \<^verbatim>\<open>Number.isFinite(null)\<close> is false.
\<close>

definition field_stale :: "jsnum option \<Rightarrow> bool" where
  "field_stale v =
     (case v of
        None \<Rightarrow> True
      | Some x \<Rightarrow> js_gt x (Fin 60) \<or> js_ge x (Fin 999) \<or> \<not> Number_isFinite x)"

section \<open>Market window progress\<close>


section \<open>Trade events\<close>






text \<open>
  \<^verbatim>\<open>EventSection\<close>. \<^verbatim>\<open>String.prototype.localeCompare\<close> is the collation of the host, a
  parameter here: it returns a negative number, zero or a positive number. \<open>n\<close> is
  the prop \<^verbatim>\<open>count\<close>. The section renders nothing for a zero count; otherwise the events are sorted with the
  comparator \<^verbatim>\<open>(a, b) => (b.time || "").localeCompare(a.time || "")\<close>, the first three
  are the preview and the remainder sits behind the toggle.
\<close>

record section_view =
  preview :: "TradeEvent list"
  rest :: "TradeEvent list"






section \<open>Formatting helpers\<close>

text \<open>The dash the helpers return, U+2014, as its three UTF-8 bytes.\<close>

definition em_dash :: string where
  "em_dash = [CHR 0xE2, CHR 0x80, CHR 0x94]"

datatype js_error = RangeError

text \<open>
  \<^verbatim>\<open>s == null\<close> holds for null and undefined; \<^verbatim>\<open>typeof s !== "number"\<close> holds for
  nothing else in the parameter's type.
\<close>

definition fmtUptime :: "jsval \<Rightarrow> string" where
  "fmtUptime v =
     (case v of
        Num s \<Rightarrow>
          if Number_isNaN s \<or> js_le s (Fin 0) then ''0s''
          else (let days = Math_floor (js_div s (Fin 86400));
                    hrs = Math_floor (js_div (js_mod s (Fin 86400)) (Fin 3600));
                    mins = Math_floor (js_div (js_mod s (Fin 3600)) (Fin 60));
                    secs = Math_floor (js_mod s (Fin 60))
                in if js_gt days (Fin 0)
                   then Number_toString days @ ''d '' @ Number_toString hrs @ ''h ''
                          @ Number_toString mins @ ''m''
                   else if js_gt hrs (Fin 0)
                   then Number_toString hrs @ ''h '' @ Number_toString mins @ ''m ''
                          @ Number_toString secs @ ''s''
                   else Number_toString mins @ ''m '' @ Number_toString secs @ ''s'')
      | _ \<Rightarrow> ''0s'')"

text \<open>
  \<^verbatim>\<open>fmtUsd\<close> and \<^verbatim>\<open>safeToFixed\<close>. The built-ins they end in are parameters:
  \<open>toLocaleString\<close> is \<^verbatim>\<open>n.toLocaleString("en-US", {minimumFractionDigits: 2,
  maximumFractionDigits: 2})\<close>, and \<open>toFixed\<close> is \<^verbatim>\<open>Number.prototype.toFixed\<close>, which
  throws a \<^verbatim>\<open>RangeError\<close> for a digit count out of range.
\<close>

definition fmtUsd :: "(jsnum \<Rightarrow> string) \<Rightarrow> jsval \<Rightarrow> string" where
  "fmtUsd toLocaleString v =
     (case v of
        Num n \<Rightarrow> if Number_isNaN n then em_dash else CHR ''$'' # toLocaleString n
      | _ \<Rightarrow> em_dash)"

definition safeToFixed ::
  "(jsnum \<Rightarrow> jsnum \<Rightarrow> js_error + string) \<Rightarrow> jsval \<Rightarrow> jsnum \<Rightarrow> js_error + string" where
  "safeToFixed toFixed v digits =
     (case v of
        Num x \<Rightarrow> if Number_isNaN x then Inr em_dash else toFixed x digits
      | _ \<Rightarrow> Inr em_dash)"

section \<open>Notions used in the statements\<close>

text \<open>
  The index that \<^verbatim>\<open>downsample\<close> reads at step \<open>i\<close>, as a natural number, when the
  data is longer than a ceiling of at least two.
\<close>

definition sample_at :: "nat \<Rightarrow> nat \<Rightarrow> nat \<Rightarrow> nat" where
  "sample_at n maxPoints i =
     (if Suc i = maxPoints then n - 1
      else nat \<lfloor>of_nat i * ((of_nat n - 1) / (of_nat maxPoints - 1)) + (1 / 2 :: rat)\<rfloor>)"

text \<open>A call that hands a series no more points than the ceiling.\<close>

fun within_ceiling :: "chart_call \<Rightarrow> bool" where
  "within_ceiling (SetData mode d) = (length d \<le> MAX_CHART_POINTS)"
| "within_ceiling _ = True"

text \<open>The calls one run of the update effect adds, and those that set the data of a mode.\<close>

definition new_calls :: "(string \<rightharpoonup> AccountData) \<Rightarrow> chart_refs \<Rightarrow> chart_call list" where
  "new_calls accounts st = drop (length (calls st)) (calls (update_effect accounts st))"

fun sets_data_of :: "string \<Rightarrow> chart_call \<Rightarrow> bool" where
  "sets_data_of mode (SetData m d) = (m = mode)"
| "sets_data_of mode _ = False"

text \<open>A mode the loop of the update effect does not skip.\<close>

definition live_mode :: "(string \<rightharpoonup> AccountData) \<Rightarrow> string set \<Rightarrow> string \<Rightarrow> bool" where
  "live_mode accounts series mode =
     (mode \<in> series \<and> (case accounts mode of None \<Rightarrow> False | Some acct \<Rightarrow> history_of acct \<noteq> []))"

text \<open>The order in which the comparator of a sort leaves two elements in place.\<close>

definition keeps_order :: "('a \<Rightarrow> 'a \<Rightarrow> jsnum) \<Rightarrow> 'a \<Rightarrow> 'a \<Rightarrow> bool" where
  "keeps_order cmp x y = (\<not> js_gt (cmp x y) (Fin 0))"

text \<open>The calls that set series data in one run of the update effect.\<close>

definition data_calls :: "(string \<rightharpoonup> AccountData) \<Rightarrow> string set \<Rightarrow> chart_call list" where
  "data_calls accounts series =
     map (\<lambda>m. SetData m (series_data (history_of (the (accounts m)))))
       (filter (live_mode accounts series) (map fst MODE_CONFIG))"

text \<open>A poll succeeds when the response is OK and its body parses.\<close>

fun succeeded :: "'a fetch_result \<Rightarrow> bool" where
  "succeeded (Response True code (Parsed data)) = True"
| "succeeded _ = False"

text \<open>The seconds since the last update as \<^verbatim>\<open>getClobWsStatus\<close> reads them.\<close>

definition secs_since :: "BotState \<Rightarrow> jsnum" where
  "secs_since st = (case clob_ws_seconds_since_update st of None \<Rightarrow> Fin 0 | Some x \<Rightarrow> x)"

section \<open>Downsampling: the loop and its indices\<close>

lemma downsample_loop_map:
  "downsample_loop data m step i out =
     out @ map (\<lambda>j. js_index data (sample_idx (length data) m step j)) [i..<m]"
proof (induction data m step i out rule: downsample_loop.induct)
  case (1 data maxPoints step i out)
  show ?case
  proof (cases "i < maxPoints")
    case True
    then show ?thesis
      using 1 by (subst downsample_loop.simps) (simp add: upt_conv_Cons)
  next
    case False
    then show ?thesis by (subst downsample_loop.simps) simp
  qed
qed

lemma length_downsample_loop:
  "length (downsample_loop data m step i out) = length out + (m - i)"
  by (simp add: downsample_loop_map)

lemma length_downsample:
  "length (downsample data m) = (if length data \<le> m then length data else m)"
  by (simp add: downsample_def length_downsample_loop)

lemma step_gt_one:
  assumes "2 \<le> m" "m < n"
  shows "1 < ((of_nat n - 1) / (of_nat m - 1) :: rat)"
proof -
  have "(0::rat) < of_nat m - 1" using assms by simp
  moreover have "(of_nat m - 1 :: rat) < of_nat n - 1" using assms by simp
  ultimately show ?thesis by (simp add: less_divide_eq)
qed

lemma round_nonneg:
  fixes s :: rat
  assumes "0 \<le> s"
  shows "0 \<le> \<lfloor>of_nat i * s + 1 / 2\<rfloor>"
proof -
  have "0 \<le> of_nat i * s" using assms by simp
  then have "0 \<le> of_nat i * s + 1 / 2" by simp
  then show ?thesis by (simp only: zero_le_floor)
qed


lemma round_below_last:
  fixes s :: rat
  assumes "1 < s" "of_nat (Suc i) * s \<le> of_int N"
  shows "\<lfloor>of_nat i * s + 1 / 2\<rfloor> < N"
proof -
  have "of_nat i * s + s \<le> of_int N" using assms(2) by (simp add: algebra_simps)
  then have "of_nat i * s + 1 / 2 < of_int N" using assms(1) by linarith
  then show ?thesis by (simp only: floor_less_iff)
qed

lemma last_step_bound:
  assumes "2 \<le> m" "Suc i < m" "m < n"
  shows "of_nat (Suc i) * ((of_nat n - 1) / (of_nat m - 1) :: rat) \<le> of_int (int n - 1)"
proof -
  have m1: "(0::rat) < of_nat m - 1" using assms by simp
  have n1: "(0::rat) \<le> of_nat n - 1" using assms by simp
  have "Suc i \<le> m - 1" using assms by simp
  then have "(of_nat (Suc i) :: rat) \<le> of_nat (m - 1)" by (simp only: of_nat_le_iff)
  also have "(of_nat (m - 1) :: rat) = of_nat m - 1" using assms by (simp add: of_nat_diff)
  finally have "(of_nat (Suc i) :: rat) \<le> of_nat m - 1" .
  then have "of_nat (Suc i) * ((of_nat n - 1) / (of_nat m - 1) :: rat)
               \<le> (of_nat m - 1) * ((of_nat n - 1) / (of_nat m - 1))"
    using n1 m1 by (intro mult_right_mono) auto
  also have "\<dots> = of_nat n - 1" using m1 by simp
  finally show ?thesis by simp
qed

lemma sample_step_fin:
  assumes "2 \<le> m"
  shows "sample_step n m = Fin ((of_nat n - 1) / (of_nat m - 1))"
  using assms by (simp add: sample_step_def)

lemma sample_idx_nat:
  assumes "2 \<le> m" "m < n" "i < m"
  shows "sample_idx n m (sample_step n m) i = Fin (of_nat (sample_at n m i))"
proof (cases "Suc i = m")
  case True
  then have "int i = int m - 1" by auto
  then show ?thesis using True assms by (simp add: sample_idx_def sample_at_def of_nat_diff)
next
  case False
  then have ne: "int i \<noteq> int m - 1" by auto
  have "0 \<le> ((of_nat n - 1) / (of_nat m - 1) :: rat)" using step_gt_one[OF assms(1,2)] by simp
  from round_nonneg[OF this, of i] show ?thesis
    using False ne by (simp add: sample_idx_def sample_at_def sample_step_fin[OF assms(1)])
qed

lemma sample_at_less:
  assumes "2 \<le> m" "m < n" "i < m"
  shows "sample_at n m i < n"
proof (cases "Suc i = m")
  case True
  then show ?thesis using assms by (simp add: sample_at_def)
next
  case False
  then have "Suc i < m" using assms by simp
  from round_below_last[OF step_gt_one[OF assms(1,2)] last_step_bound[OF assms(1) this assms(2)]]
  show ?thesis using False assms by (simp add: sample_at_def)
qed


lemma js_index_nat: "i < length xs \<Longrightarrow> js_index xs (Fin (of_nat i)) = Some (xs ! i)"
  by simp

lemma downsample_samples:
  assumes "2 \<le> m" "m < length data"
  shows "downsample data m = map (\<lambda>i. Some (data ! sample_at (length data) m i)) [0..<m]"
proof -
  have "downsample data m
          = map (\<lambda>j. js_index data (sample_idx (length data) m (sample_step (length data) m) j)) [0..<m]"
    using assms by (simp add: downsample_def downsample_loop_map)
  also have "\<dots> = map (\<lambda>i. Some (data ! sample_at (length data) m i)) [0..<m]"
  proof (rule map_cong[OF refl])
    fix i assume "i \<in> set [0..<m]"
    then have i: "i < m" by simp
    show "js_index data (sample_idx (length data) m (sample_step (length data) m) i)
            = Some (data ! sample_at (length data) m i)"
      by (simp only: sample_idx_nat[OF assms i] js_index_nat[OF sample_at_less[OF assms i]])
  qed
  finally show ?thesis .
qed






section \<open>Sorting with a comparator\<close>

lemma mset_js_insert: "mset (js_insert cmp x ys) = add_mset x (mset ys)"
  by (induction ys) auto

lemma mset_js_sort: "mset (js_sort cmp xs) = mset xs"
  by (induction xs) (auto simp: mset_js_insert)

lemma set_js_insert: "set (js_insert cmp x ys) = insert x (set ys)"
  by (metis mset_js_insert set_mset_add_mset_insert set_mset_mset)

lemma set_js_sort: "set (js_sort cmp xs) = set xs"
  by (metis mset_js_sort set_mset_mset)

lemma length_js_sort: "length (js_sort cmp xs) = length xs"
  by (metis mset_js_sort size_mset)

lemma js_insert_keeps:
  "js_insert cmp x (y # ys) =
     (if keeps_order cmp x y then x # y # ys else y # js_insert cmp x ys)"
  by (simp add: keeps_order_def)

lemma sorted_js_insert:
  assumes total: "\<And>a b. a \<in> A \<Longrightarrow> b \<in> A \<Longrightarrow> keeps_order cmp a b \<or> keeps_order cmp b a"
    and trans: "\<And>a b c. a \<in> A \<Longrightarrow> b \<in> A \<Longrightarrow> c \<in> A \<Longrightarrow>
                  keeps_order cmp a b \<Longrightarrow> keeps_order cmp b c \<Longrightarrow> keeps_order cmp a c"
    and "x \<in> A" "set ys \<subseteq> A" "sorted_wrt (keeps_order cmp) ys"
  shows "sorted_wrt (keeps_order cmp) (js_insert cmp x ys)"
  using assms(3-)
proof (induction ys)
  case Nil
  then show ?case by simp
next
  case (Cons y ys)
  show ?case
  proof (cases "keeps_order cmp x y")
    case True
    have "keeps_order cmp x z" if "z \<in> set ys" for z
    proof -
      have "keeps_order cmp y z" using Cons.prems(3) that by simp
      with True show ?thesis using trans[of x y z] Cons.prems that by auto
    qed
    then show ?thesis using True Cons.prems by (simp add: js_insert_keeps del: js_insert.simps)
  next
    case False
    then have yx: "keeps_order cmp y x" using total[of x y] Cons.prems by auto
    have "sorted_wrt (keeps_order cmp) (js_insert cmp x ys)"
      using Cons by auto
    then show ?thesis
      using False yx Cons.prems
      by (simp add: js_insert_keeps set_js_insert del: js_insert.simps)
  qed
qed

lemma sorted_js_sort:
  assumes total: "\<And>a b. a \<in> A \<Longrightarrow> b \<in> A \<Longrightarrow> keeps_order cmp a b \<or> keeps_order cmp b a"
    and trans: "\<And>a b c. a \<in> A \<Longrightarrow> b \<in> A \<Longrightarrow> c \<in> A \<Longrightarrow>
                  keeps_order cmp a b \<Longrightarrow> keeps_order cmp b c \<Longrightarrow> keeps_order cmp a c"
    and "set xs \<subseteq> A"
  shows "sorted_wrt (keeps_order cmp) (js_sort cmp xs)"
  using assms(3)
proof (induction xs)
  case Nil
  then show ?case by simp
next
  case (Cons x xs)
  have "sorted_wrt (keeps_order cmp) (js_insert cmp x (js_sort cmp xs))"
  proof (rule sorted_js_insert[where A = A])
    show "keeps_order cmp a b \<or> keeps_order cmp b a" if "a \<in> A" "b \<in> A" for a b
      using that by (rule total)
    show "keeps_order cmp a c"
      if "a \<in> A" "b \<in> A" "c \<in> A" "keeps_order cmp a b" "keeps_order cmp b c" for a b c
      using that by (rule trans)
    show "x \<in> A" using Cons.prems by simp
    show "set (js_sort cmp xs) \<subseteq> A" using Cons.prems by (simp add: set_js_sort)
    show "sorted_wrt (keeps_order cmp) (js_sort cmp xs)" using Cons by simp
  qed
  then show ?case by simp
qed

lemma js_sub_gt_zero:
  "a \<noteq> NaN \<Longrightarrow> b \<noteq> NaN \<Longrightarrow> js_gt (js_sub a b) (Fin 0) = (\<not> js_le a b)"
  by (cases a; cases b) (auto simp: js_gt_def)

lemma js_le_total: "a \<noteq> NaN \<Longrightarrow> b \<noteq> NaN \<Longrightarrow> js_le a b \<or> js_le b a"
  by (cases a; cases b) auto

lemma js_le_trans: "js_le a b \<Longrightarrow> js_le b c \<Longrightarrow> js_le a c"
  by (cases a; cases b; cases c) auto

lemma keeps_by_time:
  "time a \<noteq> NaN \<Longrightarrow> time b \<noteq> NaN \<Longrightarrow> keeps_order by_time a b = js_le (time a) (time b)"
  by (simp add: keeps_order_def by_time_def js_sub_gt_zero)

lemma sorted_by_time:
  assumes "\<forall>p \<in> set pts. time p \<noteq> NaN"
  shows "sorted_wrt (\<lambda>a b. js_le (time a) (time b)) (js_sort by_time pts)"
proof -
  let ?A = "{p. time p \<noteq> NaN}"
  have "sorted_wrt (keeps_order by_time) (js_sort by_time pts)"
  proof (rule sorted_js_sort[where A = ?A])
    show "keeps_order by_time a b \<or> keeps_order by_time b a" if "a \<in> ?A" "b \<in> ?A" for a b
      using that js_le_total[of "time a" "time b"] by (simp add: keeps_by_time)
    show "keeps_order by_time a c"
      if "a \<in> ?A" "b \<in> ?A" "c \<in> ?A" "keeps_order by_time a b" "keeps_order by_time b c" for a b c
      using that js_le_trans[of "time a" "time b" "time c"] by (simp add: keeps_by_time)
    show "set pts \<subseteq> ?A" using assms by auto
  qed
  moreover have "keeps_order by_time a b = js_le (time a) (time b)"
    if "a \<in> set (js_sort by_time pts)" "b \<in> set (js_sort by_time pts)" for a b
    using that assms by (simp add: set_js_sort keeps_by_time)
  ultimately show ?thesis
    by (metis (no_types, lifting) sorted_wrt_mono_rel)
qed

section \<open>The update effect, unfolded\<close>

lemma update_loop_result:
  "update_loop accounts series cfgs (h, cs) =
     (h \<or> (\<exists>m \<in> set (map fst cfgs). live_mode accounts series m),
      cs @ map (\<lambda>m. SetData m (series_data (history_of (the (accounts m)))))
             (filter (live_mode accounts series) (map fst cfgs)))"
proof (induction cfgs arbitrary: h cs)
  case Nil
  then show ?case by simp
next
  case (Cons c cfgs)
  obtain mode cfg where c: "c = (mode, cfg)" by (cases c)
  show ?case
  proof (cases "accounts mode")
    case None
    then show ?thesis using Cons c by (simp add: live_mode_def)
  next
    case (Some acct)
    then show ?thesis using Cons c by (auto simp: live_mode_def)
  qed
qed

lemma update_loop_v1_result:
  "update_loop_v1 accounts series cfgs (h, cs) =
     (h \<or> (\<exists>m \<in> set (map fst cfgs). live_mode accounts series m),
      cs @ map (\<lambda>m. SetData m (map Some (js_sort by_time (map to_point (history_of (the (accounts m)))))))
             (filter (live_mode accounts series) (map fst cfgs)))"
proof (induction cfgs arbitrary: h cs)
  case Nil
  then show ?case by simp
next
  case (Cons c cfgs)
  obtain mode cfg where c: "c = (mode, cfg)" by (cases c)
  show ?case
  proof (cases "accounts mode")
    case None
    then show ?thesis using Cons c by (simp add: live_mode_def)
  next
    case (Some acct)
    then show ?thesis using Cons c by (auto simp: live_mode_def)
  qed
qed

lemma has_data_live:
  "has_data series accounts = (\<exists>m \<in> set (map fst MODE_CONFIG). live_mode accounts series m)"
  by (simp add: has_data_def live_mode_def)

lemma update_effect_unfold:
  "update_effect accounts st =
     (if \<not> chartRef st then st
      else if has_data (seriesRefs st) accounts \<and> \<not> initialRangeSet st
      then st\<lparr>initialRangeSet := True,
              calls := calls st @ data_calls accounts (seriesRefs st) @ [FitContent]\<rparr>
      else st\<lparr>calls := calls st @ data_calls accounts (seriesRefs st)\<rparr>)"
  by (simp add: update_effect_def update_loop_result has_data_live data_calls_def)

lemma range_free_data_calls: "filter is_range_call (data_calls accounts series) = []"
  by (simp add: data_calls_def filter_empty_conv)

lemma update_effect_chartRef: "chartRef (update_effect accounts st) = chartRef st"
  by (simp add: update_effect_unfold)

lemma update_effect_seriesRefs: "seriesRefs (update_effect accounts st) = seriesRefs st"
  by (simp add: update_effect_unfold)

lemma update_effect_flag:
  "chartRef st \<Longrightarrow>
     initialRangeSet (update_effect accounts st)
       = (initialRangeSet st \<or> has_data (seriesRefs st) accounts)"
  by (auto simp: update_effect_unfold)

lemma update_effect_range_calls:
  "range_calls (update_effect accounts st) =
     range_calls st
       + (if chartRef st \<and> has_data (seriesRefs st) accounts \<and> \<not> initialRangeSet st then 1 else 0)"
  by (simp add: update_effect_unfold range_calls_def range_free_data_calls)

lemma run_updates_Nil: "run_updates st [] = st"
  by (simp add: run_updates_def)

lemma run_updates_Cons: "run_updates st (a # snaps) = run_updates (update_effect a st) snaps"
  by (simp add: run_updates_def)

lemma run_updates_invariant:
  assumes "chartRef st"
  shows "chartRef (run_updates st snaps)
         \<and> seriesRefs (run_updates st snaps) = seriesRefs st
         \<and> initialRangeSet (run_updates st snaps)
             = (initialRangeSet st \<or> (\<exists>a \<in> set snaps. has_data (seriesRefs st) a))
         \<and> range_calls (run_updates st snaps)
             = range_calls st
                 + (if \<not> initialRangeSet st \<and> (\<exists>a \<in> set snaps. has_data (seriesRefs st) a)
                    then 1 else 0)"
  using assms
proof (induction snaps arbitrary: st)
  case Nil
  then show ?case by (simp add: run_updates_Nil)
next
  case (Cons a snaps)
  have c: "chartRef (update_effect a st)" using Cons.prems by (simp add: update_effect_chartRef)
  show ?case
    using Cons.IH[OF c] Cons.prems
    by (auto simp: run_updates_Cons update_effect_seriesRefs update_effect_flag
                   update_effect_range_calls)
qed

lemma add_series_loop_result:
  "add_series_loop accounts cfgs (sr, cs) =
     (sr \<union> {m \<in> set (map fst cfgs). accounts m \<noteq> None},
      cs @ map (\<lambda>m. AddSeries m (label (the (accounts m))))
             (filter (\<lambda>m. accounts m \<noteq> None) (map fst cfgs)))"
proof (induction cfgs arbitrary: sr cs)
  case Nil
  then show ?case by simp
next
  case (Cons c cfgs)
  obtain mode cfg where c: "c = (mode, cfg)" by (cases c)
  show ?case using Cons c by (cases "accounts mode") auto
qed

lemma mount_effect_fresh:
  "chartRef (mount_effect True accounts initial_refs)
   \<and> \<not> initialRangeSet (mount_effect True accounts initial_refs)
   \<and> range_calls (mount_effect True accounts initial_refs) = 0
   \<and> seriesRefs (mount_effect True accounts initial_refs)
       = {m \<in> set (map fst MODE_CONFIG). accounts m \<noteq> None}"
  by (simp add: mount_effect_def add_series_loop_result initial_refs_def range_calls_def
                filter_empty_conv)

lemma update_effect_v1_unfold:
  "update_effect_v1 now throws accounts st =
     (if \<not> chartRef st then st
      else if has_data (seriesRefs st) accounts \<and> \<not> initialRangeSet st
      then st\<lparr>initialRangeSet := True,
              calls := calls st
                @ map (\<lambda>m. SetData m (map Some (js_sort by_time (map to_point (history_of (the (accounts m)))))))
                    (filter (live_mode accounts (seriesRefs st)) (map fst MODE_CONFIG))
                @ [SetVisibleRange (js_sub (Math_floor (js_div now (Fin 1000))) (Fin (3 * 3600)))
                     (Math_floor (js_div now (Fin 1000)))]
                @ (if throws then [FitContent] else [])\<rparr>
      else st\<lparr>calls := calls st
                @ map (\<lambda>m. SetData m (map Some (js_sort by_time (map to_point (history_of (the (accounts m)))))))
                    (filter (live_mode accounts (seriesRefs st)) (map fst MODE_CONFIG))\<rparr>)"
  by (simp add: update_effect_v1_def update_loop_v1_result has_data_live Let_def)

lemma update_effect_v1_settled:
  "initialRangeSet st \<Longrightarrow>
     initialRangeSet (update_effect_v1 now throws accounts st)
     \<and> range_calls (update_effect_v1 now throws accounts st) = range_calls st"
  by (simp add: update_effect_v1_unfold range_calls_def filter_empty_conv)

lemma update_effect_v1_flag:
  "chartRef st \<Longrightarrow>
     initialRangeSet (update_effect_v1 now throws accounts st)
       = (initialRangeSet st \<or> has_data (seriesRefs st) accounts)"
  by (auto simp: update_effect_v1_unfold)

lemma filter_eq_single:
  "distinct xs \<Longrightarrow> x \<in> set xs \<Longrightarrow> filter (\<lambda>m. m = x) xs = [x]"
  by (induction xs) (auto simp: filter_empty_conv)

lemma distinct_modes: "distinct (map fst MODE_CONFIG)"
  by (simp add: MODE_CONFIG_def)

lemma new_calls_unfold:
  "new_calls accounts st =
     (if \<not> chartRef st then []
      else data_calls accounts (seriesRefs st)
             @ (if has_data (seriesRefs st) accounts \<and> \<not> initialRangeSet st then [FitContent] else []))"
  by (simp add: new_calls_def update_effect_unfold)

lemma filter_sets_data_calls:
  "filter (sets_data_of mode) (data_calls accounts series) =
     map (\<lambda>m. SetData m (series_data (history_of (the (accounts m)))))
       (filter (\<lambda>m. m = mode) (filter (live_mode accounts series) (map fst MODE_CONFIG)))"
  by (simp add: data_calls_def filter_map comp_def)

lemma one_set_data:
  assumes "chartRef st" "mode \<in> set (map fst MODE_CONFIG)" "mode \<in> seriesRefs st"
    "accounts mode = Some acct" "history_of acct \<noteq> []"
  shows "filter (sets_data_of mode) (new_calls accounts st)
           = [SetData mode (series_data (history_of acct))]"
proof -
  have live: "live_mode accounts (seriesRefs st) mode" using assms by (simp add: live_mode_def)
  have "filter (\<lambda>m. m = mode) (filter (live_mode accounts (seriesRefs st)) (map fst MODE_CONFIG))
          = filter (live_mode accounts (seriesRefs st)) (filter (\<lambda>m. m = mode) (map fst MODE_CONFIG))"
    by (simp add: conj_commute)
  also have "\<dots> = [mode]"
    using live by (simp only: filter_eq_single[OF distinct_modes assms(2)]) simp
  finally show ?thesis
    using assms by (simp add: new_calls_unfold filter_sets_data_calls)
qed

lemma length_series_data: "length (series_data h) = min (length h) MAX_CHART_POINTS"
  by (simp add: series_data_def length_downsample length_js_sort)

lemma downsample_short: "length data \<le> m \<Longrightarrow> downsample data m = map Some data"
  by (simp add: downsample_def)

lemma downsample_points:
  assumes "2 \<le> m" "m < length data"
  shows "set (downsample data m) \<subseteq> Some ` set data"
  using sample_at_less[OF assms] by (auto simp: downsample_samples[OF assms])

lemma within_ceiling_data_calls: "list_all within_ceiling (data_calls accounts series)"
  by (simp add: data_calls_def list_all_iff length_series_data)

lemma within_ceiling_new_calls: "list_all within_ceiling (new_calls accounts st)"
  by (simp add: new_calls_unfold within_ceiling_data_calls)

lemma within_ceiling_update:
  "list_all within_ceiling (calls st) \<Longrightarrow> list_all within_ceiling (calls (update_effect accounts st))"
  by (simp add: update_effect_unfold within_ceiling_data_calls)

lemma within_ceiling_run:
  "list_all within_ceiling (calls st) \<Longrightarrow> list_all within_ceiling (calls (run_updates st snaps))"
  by (induction snaps arbitrary: st) (simp_all add: run_updates_Nil run_updates_Cons within_ceiling_update)

lemma within_ceiling_mount:
  "list_all within_ceiling (calls (mount_effect container accounts initial_refs))"
  by (simp add: mount_effect_def add_series_loop_result initial_refs_def list_all_iff)

section \<open>The claims about the equity chart\<close>

text \<open>
  C1. \<^verbatim>\<open>downsample(data, maxPoints)\<close> returns the data itself when it has at most
  \<open>maxPoints\<close> points; for a ceiling of at least two and longer data it returns
  exactly \<open>maxPoints\<close> elements, each of them a point of the data. Hence every
  \<^verbatim>\<open>setData\<close> call of the update effect, in one run and over any run of polls after the
  mount, carries at most \<^verbatim>\<open>MAX_CHART_POINTS\<close> = 8000 points.
\<close>

theorem downsample_ceiling:
  "(length data \<le> maxPoints \<longrightarrow> downsample data maxPoints = map Some data)
   \<and> (2 \<le> maxPoints \<and> maxPoints < length data \<longrightarrow>
        length (downsample data maxPoints) = maxPoints
        \<and> set (downsample data maxPoints) \<subseteq> Some ` set data)
   \<and> (\<forall>c \<in> set (new_calls accounts st). within_ceiling c)
   \<and> (\<forall>c \<in> set (calls (run_updates (mount_effect container accounts0 initial_refs) snaps)).
        within_ceiling c)"
proof -
  have a: "length data \<le> maxPoints \<longrightarrow> downsample data maxPoints = map Some data"
    by (simp add: downsample_short)
  have b: "2 \<le> maxPoints \<and> maxPoints < length data \<longrightarrow>
        length (downsample data maxPoints) = maxPoints
        \<and> set (downsample data maxPoints) \<subseteq> Some ` set data"
    using downsample_points[of maxPoints data] by (simp add: length_downsample)
  have c: "\<forall>c \<in> set (new_calls accounts st). within_ceiling c"
    using within_ceiling_new_calls[of accounts st] by (simp add: list_all_iff)
  have d: "\<forall>c \<in> set (calls (run_updates (mount_effect container accounts0 initial_refs) snaps)).
        within_ceiling c"
    using within_ceiling_run[OF within_ceiling_mount, of container accounts0 snaps]
    by (simp add: list_all_iff)
  from a b c d show ?thesis by blast
qed

theorem downsample_ceiling_witness:
  "downsample [10, 20, 30 :: nat] 5 = [Some 10, Some 20, Some 30]
   \<and> length (downsample [10, 20, 30, 40, 50, 60 :: nat] 4) = 4
   \<and> set (downsample [10, 20, 30, 40, 50, 60 :: nat] 4) \<subseteq> Some ` set [10, 20, 30, 40, 50, 60]
   \<and> within_ceiling (SetData ''dual''
        (series_data [\<lparr>ts = Fin 2, equity = Fin 101\<rparr>, \<lparr>ts = Fin 1, equity = Fin 100\<rparr>]))"
proof -
  have a: "downsample [10, 20, 30 :: nat] 5 = [Some 10, Some 20, Some 30]"
    using downsample_ceiling[of "[10, 20, 30 :: nat]" 5] by simp
  have b: "length (downsample [10, 20, 30, 40, 50, 60 :: nat] 4) = 4
           \<and> set (downsample [10, 20, 30, 40, 50, 60 :: nat] 4) \<subseteq> Some ` set [10, 20, 30, 40, 50, 60]"
    using downsample_ceiling[of "[10, 20, 30, 40, 50, 60 :: nat]" 4] by simp
  let ?acct = "\<lparr>label = ''Dual (Both)'',
                 equity_history = Some [\<lparr>ts = Fin 2, equity = Fin 101\<rparr>, \<lparr>ts = Fin 1, equity = Fin 100\<rparr>],
                 trade_events = None\<rparr>"
  let ?st = "mount_effect True [''dual'' \<mapsto> ?acct] initial_refs"
  have mem: "SetData ''dual''
        (series_data [\<lparr>ts = Fin 2, equity = Fin 101\<rparr>, \<lparr>ts = Fin 1, equity = Fin 100\<rparr>])
          \<in> set (new_calls [''dual'' \<mapsto> ?acct] ?st)"
    by (simp add: new_calls_def update_effect_def mount_effect_def initial_refs_def MODE_CONFIG_def
                  history_of_def)
  have c: "within_ceiling (SetData ''dual''
        (series_data [\<lparr>ts = Fin 2, equity = Fin 101\<rparr>, \<lparr>ts = Fin 1, equity = Fin 100\<rparr>]))"
    using downsample_ceiling[of _ _ "[''dual'' \<mapsto> ?acct]" ?st] mem by blast
  from a b c show ?thesis by blast
qed

text \<open>
  C2, as amended. After the chart is created, with a series for each mode of
  \<^verbatim>\<open>MODE_CONFIG\<close> that had an account at the mount, over any sequence of snapshots:
  the flag \<^verbatim>\<open>initialRangeSet\<close> is set exactly when some snapshot so far gave data to a
  mode that has a series; the number of calls that set the visible range is 1 when
  the flag is set and 0 before; and once the flag is set, an update keeps it and calls
  neither \<^verbatim>\<open>setVisibleRange\<close> nor \<^verbatim>\<open>fitContent\<close>. The last two conjuncts say the same
  of the earlier revision of the component.
\<close>

theorem viewport_set_once:
  assumes "st0 = mount_effect True accounts0 initial_refs"
  shows "seriesRefs st0 = {m \<in> set (map fst MODE_CONFIG). accounts0 m \<noteq> None}
     \<and> initialRangeSet (run_updates st0 snaps) = (\<exists>a \<in> set snaps. has_data (seriesRefs st0) a)
     \<and> range_calls (run_updates st0 snaps) = (if initialRangeSet (run_updates st0 snaps) then 1 else 0)
     \<and> (initialRangeSet st \<longrightarrow>
           initialRangeSet (update_effect accounts st)
           \<and> filter is_range_call (new_calls accounts st) = [])
     \<and> (initialRangeSet st \<longrightarrow>
           initialRangeSet (update_effect_v1 now throws accounts st)
           \<and> range_calls (update_effect_v1 now throws accounts st) = range_calls st)
     \<and> (chartRef st \<longrightarrow>
           initialRangeSet (update_effect_v1 now throws accounts st)
             = (initialRangeSet st \<or> has_data (seriesRefs st) accounts))"
proof -
  have fresh: "chartRef st0" "\<not> initialRangeSet st0" "range_calls st0 = 0"
    and sr: "seriesRefs st0 = {m \<in> set (map fst MODE_CONFIG). accounts0 m \<noteq> None}"
    using mount_effect_fresh[of accounts0] assms by simp_all
  from run_updates_invariant[OF fresh(1), of snaps] fresh
  have flag: "initialRangeSet (run_updates st0 snaps) = (\<exists>a \<in> set snaps. has_data (seriesRefs st0) a)"
    and once: "range_calls (run_updates st0 snaps) = (if initialRangeSet (run_updates st0 snaps) then 1 else 0)"
    by simp_all
  have later: "initialRangeSet st \<longrightarrow>
           initialRangeSet (update_effect accounts st)
           \<and> filter is_range_call (new_calls accounts st) = []"
    by (simp add: new_calls_def update_effect_unfold range_free_data_calls)
  have later_v1: "initialRangeSet st \<longrightarrow>
           initialRangeSet (update_effect_v1 now throws accounts st)
           \<and> range_calls (update_effect_v1 now throws accounts st) = range_calls st"
    using update_effect_v1_settled by blast
  have flag_v1: "chartRef st \<longrightarrow>
           initialRangeSet (update_effect_v1 now throws accounts st)
             = (initialRangeSet st \<or> has_data (seriesRefs st) accounts)"
    using update_effect_v1_flag by blast
  from sr flag once later later_v1 flag_v1 show ?thesis by blast
qed

theorem viewport_set_once_witness:
  "initialRangeSet (run_updates
       (mount_effect True [''dual'' \<mapsto> \<lparr>label = ''Dual (Both)'', equity_history = None, trade_events = None\<rparr>] initial_refs)
       [[''dual'' \<mapsto> \<lparr>label = ''Dual (Both)'', equity_history = Some [\<lparr>ts = Fin 1, equity = Fin 100\<rparr>], trade_events = None\<rparr>],
        [''dual'' \<mapsto> \<lparr>label = ''Dual (Both)'', equity_history = Some [\<lparr>ts = Fin 1, equity = Fin 100\<rparr>, \<lparr>ts = Fin 3, equity = Fin 101\<rparr>], trade_events = None\<rparr>]])
   \<and> range_calls (run_updates
       (mount_effect True [''dual'' \<mapsto> \<lparr>label = ''Dual (Both)'', equity_history = None, trade_events = None\<rparr>] initial_refs)
       [[''dual'' \<mapsto> \<lparr>label = ''Dual (Both)'', equity_history = Some [\<lparr>ts = Fin 1, equity = Fin 100\<rparr>], trade_events = None\<rparr>],
        [''dual'' \<mapsto> \<lparr>label = ''Dual (Both)'', equity_history = Some [\<lparr>ts = Fin 1, equity = Fin 100\<rparr>, \<lparr>ts = Fin 3, equity = Fin 101\<rparr>], trade_events = None\<rparr>]])
       = 1
   \<and> filter is_range_call
       (new_calls [''dual'' \<mapsto> \<lparr>label = ''Dual (Both)'', equity_history = Some [\<lparr>ts = Fin 1, equity = Fin 100\<rparr>, \<lparr>ts = Fin 3, equity = Fin 101\<rparr>], trade_events = None\<rparr>]
          (run_updates
             (mount_effect True [''dual'' \<mapsto> \<lparr>label = ''Dual (Both)'', equity_history = None, trade_events = None\<rparr>] initial_refs)
             [[''dual'' \<mapsto> \<lparr>label = ''Dual (Both)'', equity_history = Some [\<lparr>ts = Fin 1, equity = Fin 100\<rparr>], trade_events = None\<rparr>]]))
       = []"
  (is "initialRangeSet (run_updates ?st0 [?s1, ?s2]) \<and> _ \<and> _")
proof -
  have hd1: "has_data (seriesRefs ?st0) ?s1"
    using viewport_set_once[OF refl, of "[''dual'' \<mapsto> \<lparr>label = ''Dual (Both)'', equity_history = None, trade_events = None\<rparr>]"]
    by (simp add: has_data_def MODE_CONFIG_def history_of_def)
  have one: "initialRangeSet (run_updates ?st0 [?s1])"
    using viewport_set_once[OF refl, of _ "[?s1]"] hd1 by simp
  have two: "initialRangeSet (run_updates ?st0 [?s1, ?s2])"
    using viewport_set_once[OF refl, of _ "[?s1, ?s2]"] hd1 by simp
  have cnt: "range_calls (run_updates ?st0 [?s1, ?s2]) = 1"
    using viewport_set_once[OF refl, of _ "[?s1, ?s2]"] two by simp
  have quiet: "filter is_range_call (new_calls ?s2 (run_updates ?st0 [?s1])) = []"
    using viewport_set_once[OF refl, of _ _ "run_updates ?st0 [?s1]" ?s2] one by blast
  from two cnt quiet show ?thesis by blast
qed

text \<open>
  C2 as stated fails: the chart is mounted while the snapshot has no account, so no
  series exists; the next snapshot brings an account with a history that is not empty,
  and the update neither sets the flag nor touches the visible range.
\<close>

theorem viewport_first_history_counterexample:
  "[''binance_only'' \<mapsto> \<lparr>label = ''Binance'', equity_history = Some [\<lparr>ts = Fin 1, equity = Fin 100\<rparr>], trade_events = None\<rparr>]
      ''binance_only''
     = Some \<lparr>label = ''Binance'', equity_history = Some [\<lparr>ts = Fin 1, equity = Fin 100\<rparr>], trade_events = None\<rparr>
   \<and> history_of \<lparr>label = ''Binance'', equity_history = Some [\<lparr>ts = Fin 1, equity = Fin 100\<rparr>], trade_events = None\<rparr> \<noteq> []
   \<and> \<not> initialRangeSet (run_updates (mount_effect True Map.empty initial_refs)
         [[''binance_only'' \<mapsto> \<lparr>label = ''Binance'', equity_history = Some [\<lparr>ts = Fin 1, equity = Fin 100\<rparr>], trade_events = None\<rparr>]])
   \<and> calls (run_updates (mount_effect True Map.empty initial_refs)
         [[''binance_only'' \<mapsto> \<lparr>label = ''Binance'', equity_history = Some [\<lparr>ts = Fin 1, equity = Fin 100\<rparr>], trade_events = None\<rparr>]])
       = [CreateChart]"
  by (simp add: run_updates_def update_effect_def mount_effect_def initial_refs_def MODE_CONFIG_def
                history_of_def)

text \<open>
  C7, as amended. For a mode of \<^verbatim>\<open>MODE_CONFIG\<close> that has a series and an account whose
  history is not empty and has no NaN time, one run of the update effect makes exactly
  one \<^verbatim>\<open>setData\<close> call for that mode, with the history mapped to (time, value) points,
  sorted by time and then downsampled. The sorted list is a permutation of the mapped
  history in nondecreasing time order. Up to 8000 points the data passed is that
  sorted list itself; beyond, it is a sample of 8000 of its points.
\<close>

theorem series_data_sorted:
  assumes "chartRef st" and "mode \<in> set (map fst MODE_CONFIG)" and "mode \<in> seriesRefs st"
    and "accounts mode = Some acct" and "history_of acct \<noteq> []"
    and "\<forall>pt \<in> set (history_of acct). ts pt \<noteq> NaN"
  shows "filter (sets_data_of mode) (new_calls accounts st)
           = [SetData mode (downsample (js_sort by_time (map to_point (history_of acct))) MAX_CHART_POINTS)]
     \<and> (length (history_of acct) \<le> MAX_CHART_POINTS \<longrightarrow>
          downsample (js_sort by_time (map to_point (history_of acct))) MAX_CHART_POINTS
            = map Some (js_sort by_time (map to_point (history_of acct))))
     \<and> (MAX_CHART_POINTS < length (history_of acct) \<longrightarrow>
          length (downsample (js_sort by_time (map to_point (history_of acct))) MAX_CHART_POINTS)
            = MAX_CHART_POINTS)
     \<and> mset (js_sort by_time (map to_point (history_of acct))) = mset (map to_point (history_of acct))
     \<and> sorted_wrt (\<lambda>a b. js_le (time a) (time b)) (js_sort by_time (map to_point (history_of acct)))"
proof -
  have a: "filter (sets_data_of mode) (new_calls accounts st)
           = [SetData mode (downsample (js_sort by_time (map to_point (history_of acct))) MAX_CHART_POINTS)]"
    using one_set_data[of st mode accounts acct] assms(1-5) by (simp add: series_data_def)
  have b: "length (history_of acct) \<le> MAX_CHART_POINTS \<longrightarrow>
          downsample (js_sort by_time (map to_point (history_of acct))) MAX_CHART_POINTS
            = map Some (js_sort by_time (map to_point (history_of acct)))"
    by (simp add: downsample_short length_js_sort)
  have c: "MAX_CHART_POINTS < length (history_of acct) \<longrightarrow>
          length (downsample (js_sort by_time (map to_point (history_of acct))) MAX_CHART_POINTS)
            = MAX_CHART_POINTS"
    by (simp add: length_downsample length_js_sort)
  have d: "mset (js_sort by_time (map to_point (history_of acct))) = mset (map to_point (history_of acct))"
    by (rule mset_js_sort)
  have "\<forall>p \<in> set (map to_point (history_of acct)). time p \<noteq> NaN"
    using assms(6) by (simp add: to_point_def)
  then have e: "sorted_wrt (\<lambda>a b. js_le (time a) (time b)) (js_sort by_time (map to_point (history_of acct)))"
    by (rule sorted_by_time)
  from a b c d e show ?thesis by blast
qed

theorem series_data_sorted_witness:
  "filter (sets_data_of ''dual'')
     (new_calls
        [''dual'' \<mapsto> \<lparr>label = ''Dual (Both)'',
            equity_history = Some [\<lparr>ts = Fin 2, equity = Fin 101\<rparr>, \<lparr>ts = Fin 1, equity = Fin 100\<rparr>],
            trade_events = None\<rparr>]
        (mount_effect True
           [''dual'' \<mapsto> \<lparr>label = ''Dual (Both)'', equity_history = None, trade_events = None\<rparr>]
           initial_refs))
     = [SetData ''dual'' [Some \<lparr>time = Fin 1, val = Fin 100\<rparr>, Some \<lparr>time = Fin 2, val = Fin 101\<rparr>]]"
proof -
  let ?acct = "\<lparr>label = ''Dual (Both)'',
      equity_history = Some [\<lparr>ts = Fin 2, equity = Fin 101\<rparr>, \<lparr>ts = Fin 1, equity = Fin 100\<rparr>],
      trade_events = None\<rparr>"
  let ?st = "mount_effect True
           [''dual'' \<mapsto> \<lparr>label = ''Dual (Both)'', equity_history = None, trade_events = None\<rparr>]
           initial_refs"
  have h1: "chartRef ?st"
    by (simp add: mount_effect_def initial_refs_def MODE_CONFIG_def)
  have h2: "''dual'' \<in> set (map fst MODE_CONFIG)" by (simp add: MODE_CONFIG_def)
  have h3: "''dual'' \<in> seriesRefs ?st"
    by (simp add: mount_effect_def initial_refs_def MODE_CONFIG_def)
  have h4: "[''dual'' \<mapsto> ?acct] ''dual'' = Some ?acct" by simp
  have h5: "history_of ?acct \<noteq> []" by (simp add: history_of_def)
  have h6: "\<forall>pt \<in> set (history_of ?acct). ts pt \<noteq> NaN" by (simp add: history_of_def)
  have srt: "js_sort by_time (map to_point (history_of ?acct))
               = [\<lparr>time = Fin 1, val = Fin 100\<rparr>, \<lparr>time = Fin 2, val = Fin 101\<rparr>]"
    by (simp add: history_of_def to_point_def by_time_def js_gt_def)
  have len: "length (history_of ?acct) \<le> MAX_CHART_POINTS"
    by (simp add: history_of_def MAX_CHART_POINTS_def)
  from series_data_sorted[of ?st "''dual''" "[''dual'' \<mapsto> ?acct]" ?acct] h1 h2 h3 h4 h5 h6 len
  have "filter (sets_data_of ''dual'') (new_calls [''dual'' \<mapsto> ?acct] ?st)
          = [SetData ''dual'' (map Some (js_sort by_time (map to_point (history_of ?acct))))]"
    by simp
  then show ?thesis by (simp only: srt) simp
qed

text \<open>
  C7 as stated fails for a history of 8001 points: the series receives 8000 points,
  which is not a permutation of the 8001 mapped points.
\<close>

theorem series_data_permutation_counterexample:
  "length (series_data (replicate 8001 \<lparr>ts = Fin 0, equity = Fin 100\<rparr>)) = 8000
   \<and> length (map to_point (replicate 8001 \<lparr>ts = Fin 0, equity = Fin 100\<rparr>)) = 8001
   \<and> series_data (replicate 8001 \<lparr>ts = Fin 0, equity = Fin 100\<rparr>)
       \<noteq> map Some (js_sort by_time (map to_point (replicate 8001 \<lparr>ts = Fin 0, equity = Fin 100\<rparr>)))"
proof -
  let ?h = "replicate 8001 \<lparr>ts = Fin 0, equity = Fin 100\<rparr>"
  have a: "length (series_data ?h) = 8000"
    by (simp add: length_series_data MAX_CHART_POINTS_def)
  have b: "length (map Some (js_sort by_time (map to_point ?h))) = 8001"
    by (simp add: length_js_sort)
  have "length (series_data ?h) \<noteq> length (map Some (js_sort by_time (map to_point ?h)))"
    by (simp only: a b)
  then have c: "series_data ?h \<noteq> map Some (js_sort by_time (map to_point ?h))"
    by (rule contrapos_nn) (erule arg_cong)
  from a c show ?thesis by simp
qed

section \<open>The claim about the state poller\<close>

text \<open>
  C3. One poll that fails (a rejected fetch, a response that is not OK, a body that
  does not parse) changes the error only, to a message, and leaves the snapshot and
  \<^verbatim>\<open>lastFetch\<close> as they were; a poll that succeeds replaces the snapshot by the parsed
  payload, clears the error and sets \<^verbatim>\<open>lastFetch\<close> to the current time.
\<close>

theorem fetchState_outcomes:
  "(fetchState now (Rejected e) h = h\<lparr>error := Some (catch_message e)\<rparr>)
   \<and> (fetchState now (Response False code body) h
        = h\<lparr>error := Some (''HTTP '' @ Number_toString (Fin (of_nat code)))\<rparr>)
   \<and> (fetchState now (Response True code (JsonThrows e)) h = h\<lparr>error := Some (catch_message e)\<rparr>)
   \<and> (fetchState now (Response True code (Parsed data)) h
        = \<lparr>state = data, error = None, lastFetch = now\<rparr>)
   \<and> (\<not> succeeded outcome \<longrightarrow>
        state (fetchState now outcome h) = state h
        \<and> lastFetch (fetchState now outcome h) = lastFetch h
        \<and> error (fetchState now outcome h) \<noteq> None)"
proof -
  have "\<not> succeeded outcome \<longrightarrow>
        state (fetchState now outcome h) = state h
        \<and> lastFetch (fetchState now outcome h) = lastFetch h
        \<and> error (fetchState now outcome h) \<noteq> None"
    by (auto simp: fetchState_def split: fetch_result.splits json_result.splits)
  then show ?thesis by (simp add: fetchState_def)
qed

theorem fetchState_outcomes_witness:
  "fetchState 1700000002000 (Response False 503 (Parsed (Some (7::nat))))
       \<lparr>state = Some 3, error = None, lastFetch = 1700000000000\<rparr>
     = \<lparr>state = Some 3, error = Some ''HTTP 503'', lastFetch = 1700000000000\<rparr>
   \<and> fetchState 1700000002000 (Rejected (Error ''Failed to fetch''))
       \<lparr>state = Some (3::nat), error = None, lastFetch = 1700000000000\<rparr>
     = \<lparr>state = Some 3, error = Some ''Failed to fetch'', lastFetch = 1700000000000\<rparr>
   \<and> fetchState 1700000002000 (Response True 200 (Parsed (Some (7::nat))))
       \<lparr>state = Some 3, error = Some ''HTTP 503'', lastFetch = 1700000000000\<rparr>
     = \<lparr>state = Some 7, error = None, lastFetch = 1700000002000\<rparr>
   \<and> state (fetchState 1700000002000 (Response True 200 (JsonThrows NotAnError))
       \<lparr>state = Some (3::nat), error = None, lastFetch = 1700000000000\<rparr>) = Some 3"
proof -
  have n: "nat_str 503 = ''503''" by code_simp
  have a: "fetchState 1700000002000 (Response False 503 (Parsed (Some (7::nat))))
       \<lparr>state = Some 3, error = None, lastFetch = 1700000000000\<rparr>
     = \<lparr>state = Some 3, error = Some ''HTTP 503'', lastFetch = 1700000000000\<rparr>"
    using fetchState_outcomes[of 1700000002000 _ "\<lparr>state = Some 3, error = None, lastFetch = 1700000000000\<rparr>" 503 "Parsed (Some (7::nat))"]
    by (simp add: int_str_def n)
  have b: "fetchState 1700000002000 (Rejected (Error ''Failed to fetch''))
       \<lparr>state = Some (3::nat), error = None, lastFetch = 1700000000000\<rparr>
     = \<lparr>state = Some 3, error = Some ''Failed to fetch'', lastFetch = 1700000000000\<rparr>"
    using fetchState_outcomes[of 1700000002000 "Error ''Failed to fetch''" "\<lparr>state = Some (3::nat), error = None, lastFetch = 1700000000000\<rparr>"]
    by simp
  have c: "fetchState 1700000002000 (Response True 200 (Parsed (Some (7::nat))))
       \<lparr>state = Some 3, error = Some ''HTTP 503'', lastFetch = 1700000000000\<rparr>
     = \<lparr>state = Some 7, error = None, lastFetch = 1700000002000\<rparr>"
    using fetchState_outcomes[of 1700000002000 _ "\<lparr>state = Some 3, error = Some ''HTTP 503'', lastFetch = 1700000000000\<rparr>" 200 _ "Some (7::nat)"]
    by simp
  have d: "state (fetchState 1700000002000 (Response True 200 (JsonThrows NotAnError))
       \<lparr>state = Some (3::nat), error = None, lastFetch = 1700000000000\<rparr>) = Some 3"
    using fetchState_outcomes[of 1700000002000 _ "\<lparr>state = Some (3::nat), error = None, lastFetch = 1700000000000\<rparr>" _ _ _ "Response True 200 (JsonThrows NotAnError)"]
    by simp
  from a b c d show ?thesis by blast
qed

section \<open>The claims about the health status\<close>

text \<open>
  C4, as amended. \<^verbatim>\<open>getClobWsStatus\<close> returns Disconnected when the socket is not
  connected; otherwise Idle when there is no current market; otherwise Stale when the
  seconds since the last update, with null read as 0, are more than 60, at least 999
  or not finite; otherwise Connected; with the \<open>ok\<close> and \<open>warning\<close> flags of the claim.
\<close>

theorem getClobWsStatus_cases:
  "(\<not> clob_ws_connected st \<longrightarrow>
      getClobWsStatus st
        = \<lparr>ok = False, warning = False, status = ''Disconnected'', detail = ''Not connected''\<rparr>)
   \<and> (clob_ws_connected st \<and> current_market st = None \<longrightarrow>
      getClobWsStatus st
        = \<lparr>ok = True, warning = True, status = ''Idle'', detail = ''No active market''\<rparr>)
   \<and> (clob_ws_connected st \<and> current_market st \<noteq> None \<and> field_stale (Some (secs_since st)) \<longrightarrow>
      getClobWsStatus st
        = \<lparr>ok = False, warning = False, status = ''Stale'', detail = formatSecsAgo (Num (secs_since st))\<rparr>)
   \<and> (clob_ws_connected st \<and> current_market st \<noteq> None \<and> \<not> field_stale (Some (secs_since st)) \<longrightarrow>
      getClobWsStatus st
        = \<lparr>ok = True, warning = False, status = ''Connected'', detail = formatSecsAgo (Num (secs_since st))\<rparr>)"
  by (simp add: getClobWsStatus_def secs_since_def field_stale_def SUSPICIOUS_SECS_def Let_def)

theorem getClobWsStatus_cases_witness:
  "status (getClobWsStatus \<lparr>current_market = None, clob_ws_connected = False,
             clob_ws_seconds_since_update = Some (Fin 2)\<rparr>) = ''Disconnected''
   \<and> status (getClobWsStatus \<lparr>current_market = None, clob_ws_connected = True,
             clob_ws_seconds_since_update = Some (Fin 2)\<rparr>) = ''Idle''
   \<and> status (getClobWsStatus \<lparr>current_market = Some \<lparr>seconds_elapsed = Fin 10\<rparr>, clob_ws_connected = True,
             clob_ws_seconds_since_update = Some (Fin 61)\<rparr>) = ''Stale''
   \<and> status (getClobWsStatus \<lparr>current_market = Some \<lparr>seconds_elapsed = Fin 10\<rparr>, clob_ws_connected = True,
             clob_ws_seconds_since_update = Some (Fin 60)\<rparr>) = ''Connected''"
proof -
  have a: "status (getClobWsStatus \<lparr>current_market = None, clob_ws_connected = False,
             clob_ws_seconds_since_update = Some (Fin 2)\<rparr>) = ''Disconnected''"
    using getClobWsStatus_cases[of "\<lparr>current_market = None, clob_ws_connected = False,
             clob_ws_seconds_since_update = Some (Fin 2)\<rparr>"] by simp
  have b: "status (getClobWsStatus \<lparr>current_market = None, clob_ws_connected = True,
             clob_ws_seconds_since_update = Some (Fin 2)\<rparr>) = ''Idle''"
    using getClobWsStatus_cases[of "\<lparr>current_market = None, clob_ws_connected = True,
             clob_ws_seconds_since_update = Some (Fin 2)\<rparr>"] by simp
  have c: "status (getClobWsStatus \<lparr>current_market = Some \<lparr>seconds_elapsed = Fin 10\<rparr>, clob_ws_connected = True,
             clob_ws_seconds_since_update = Some (Fin 61)\<rparr>) = ''Stale''"
    using getClobWsStatus_cases[of "\<lparr>current_market = Some \<lparr>seconds_elapsed = Fin 10\<rparr>, clob_ws_connected = True,
             clob_ws_seconds_since_update = Some (Fin 61)\<rparr>"]
    by (simp add: field_stale_def secs_since_def js_gt_def)
  have d: "status (getClobWsStatus \<lparr>current_market = Some \<lparr>seconds_elapsed = Fin 10\<rparr>, clob_ws_connected = True,
             clob_ws_seconds_since_update = Some (Fin 60)\<rparr>) = ''Connected''"
    using getClobWsStatus_cases[of "\<lparr>current_market = Some \<lparr>seconds_elapsed = Fin 10\<rparr>, clob_ws_connected = True,
             clob_ws_seconds_since_update = Some (Fin 60)\<rparr>"]
    by (simp add: field_stale_def secs_since_def js_gt_def js_ge_def)
  from a b c d show ?thesis by blast
qed

text \<open>
  C4 as stated fails when the field is null: null is not a finite number, yet the
  status of a connected socket with a market is Connected.
\<close>

theorem getClobWsStatus_null_counterexample:
  "field_stale (clob_ws_seconds_since_update
       \<lparr>current_market = Some \<lparr>seconds_elapsed = Fin 10\<rparr>, clob_ws_connected = True,
        clob_ws_seconds_since_update = None\<rparr>)
   \<and> clob_ws_connected
       \<lparr>current_market = Some \<lparr>seconds_elapsed = Fin 10\<rparr>, clob_ws_connected = True,
        clob_ws_seconds_since_update = None\<rparr>
   \<and> current_market
       \<lparr>current_market = Some \<lparr>seconds_elapsed = Fin 10\<rparr>, clob_ws_connected = True,
        clob_ws_seconds_since_update = None\<rparr> \<noteq> None
   \<and> status (getClobWsStatus
       \<lparr>current_market = Some \<lparr>seconds_elapsed = Fin 10\<rparr>, clob_ws_connected = True,
        clob_ws_seconds_since_update = None\<rparr>) = ''Connected''
   \<and> ok (getClobWsStatus
       \<lparr>current_market = Some \<lparr>seconds_elapsed = Fin 10\<rparr>, clob_ws_connected = True,
        clob_ws_seconds_since_update = None\<rparr>)"
  by (simp add: getClobWsStatus_def field_stale_def SUSPICIOUS_SECS_def js_gt_def js_ge_def)

lemma secs_ago_not_no_update: "xs @ ''s ago'' \<noteq> ''No recent update''"
proof
  assume "xs @ ''s ago'' = ''No recent update''"
  then have "last (xs @ ''s ago'') = last ''No recent update''" by (rule arg_cong)
  then show False by simp
qed

lemma ge_suspicious_reasonable: "js_ge x SUSPICIOUS_SECS \<Longrightarrow> js_ge x MAX_REASONABLE_SECS"
  by (cases x) (auto simp: js_ge_def SUSPICIOUS_SECS_def MAX_REASONABLE_SECS_def)

text \<open>
  C5. For a number, \<^verbatim>\<open>formatSecsAgo\<close> returns "No recent update" exactly when the
  number is not finite or is at least 600, the sentinel 999 included, and the rounded
  number followed by "s ago" otherwise.
\<close>

theorem formatSecsAgo_sentinel:
  "formatSecsAgo (Num secs) =
     (if \<not> Number_isFinite secs \<or> js_ge secs (Fin 600) then ''No recent update''
      else Number_toString (Math_round secs) @ ''s ago'')
   \<and> (formatSecsAgo (Num secs) = ''No recent update''
        \<longleftrightarrow> \<not> Number_isFinite secs \<or> js_ge secs (Fin 600))
   \<and> formatSecsAgo (Num (Fin 999)) = ''No recent update''"
proof -
  have sub: "js_ge secs (Fin 999) \<Longrightarrow> js_ge secs (Fin 600)"
    using ge_suspicious_reasonable[of secs] by (simp add: SUSPICIOUS_SECS_def MAX_REASONABLE_SECS_def)
  have a: "formatSecsAgo (Num secs) =
     (if \<not> Number_isFinite secs \<or> js_ge secs (Fin 600) then ''No recent update''
      else Number_toString (Math_round secs) @ ''s ago'')"
    using sub by (auto simp: formatSecsAgo_def SUSPICIOUS_SECS_def MAX_REASONABLE_SECS_def)
  have b: "formatSecsAgo (Num secs) = ''No recent update''
        \<longleftrightarrow> \<not> Number_isFinite secs \<or> js_ge secs (Fin 600)"
    by (simp only: a secs_ago_not_no_update split: if_splits) simp
  have c: "formatSecsAgo (Num (Fin 999)) = ''No recent update''"
    by (simp add: formatSecsAgo_def SUSPICIOUS_SECS_def MAX_REASONABLE_SECS_def js_ge_def)
  from a b c show ?thesis by blast
qed

theorem formatSecsAgo_sentinel_witness:
  "formatSecsAgo (Num (Fin (25 / 2))) = ''13s ago''
   \<and> formatSecsAgo (Num (Fin 600)) = ''No recent update''
   \<and> formatSecsAgo (Num PosInf) = ''No recent update''
   \<and> formatSecsAgo (Num NaN) = ''No recent update''"
proof -
  have n: "nat_str 13 = ''13''" by code_simp
  have a: "formatSecsAgo (Num (Fin (25 / 2))) = ''13s ago''"
    using formatSecsAgo_sentinel[of "Fin (25 / 2)"] by (simp add: js_ge_def int_str_def n)
  have b: "formatSecsAgo (Num (Fin 600)) = ''No recent update''"
    using formatSecsAgo_sentinel[of "Fin 600"] by (simp add: js_ge_def)
  have c: "formatSecsAgo (Num PosInf) = ''No recent update''"
    using formatSecsAgo_sentinel[of PosInf] by simp
  have d: "formatSecsAgo (Num NaN) = ''No recent update''"
    using formatSecsAgo_sentinel[of NaN] by simp
  from a b c d show ?thesis by blast
qed

section \<open>The claim about the trade events\<close>









section \<open>The claim about the formatting helpers\<close>

text \<open>
  C9. For null, undefined and NaN, \<^verbatim>\<open>fmtUsd\<close> and \<^verbatim>\<open>safeToFixed\<close> return the dash and
  \<^verbatim>\<open>fmtUptime\<close> returns "0s", as it does for every number that is at most 0; none of
  them throws there, whatever the built-ins they end in would do.
\<close>

theorem format_helpers_total:
  "fmtUsd toLocaleString Undefined = em_dash
   \<and> fmtUsd toLocaleString Null = em_dash
   \<and> fmtUsd toLocaleString (Num NaN) = em_dash
   \<and> safeToFixed toFixed Undefined digits = Inr em_dash
   \<and> safeToFixed toFixed Null digits = Inr em_dash
   \<and> safeToFixed toFixed (Num NaN) digits = Inr em_dash
   \<and> fmtUptime Undefined = ''0s''
   \<and> fmtUptime Null = ''0s''
   \<and> fmtUptime (Num NaN) = ''0s''
   \<and> (js_le s (Fin 0) \<longrightarrow> fmtUptime (Num s) = ''0s'')"
  by (simp add: fmtUsd_def safeToFixed_def fmtUptime_def)

theorem format_helpers_total_witness:
  "safeToFixed (\<lambda>x d. Inl RangeError) (Num NaN) (Fin 200) = Inr em_dash
   \<and> fmtUsd (\<lambda>x. ''1.00'') Null = em_dash
   \<and> js_le (Fin (- 5)) (Fin 0) \<and> fmtUptime (Num (Fin (- 5))) = ''0s''
   \<and> js_le NegInf (Fin 0) \<and> fmtUptime (Num NegInf) = ''0s''"
proof -
  have h1: "js_le (Fin (- 5)) (Fin 0)" by simp
  have h2: "js_le NegInf (Fin 0)" by simp
  show ?thesis
    using format_helpers_total[of "\<lambda>x. ''1.00''" "\<lambda>x d. Inl RangeError" "Fin 200" "Fin (- 5)"]
          format_helpers_total[of "\<lambda>x. ''1.00''" "\<lambda>x d. Inl RangeError" "Fin 200" NegInf] h1 h2
    by blast
qed

section \<open>The claim about the market window\<close>








end
